theory Spec2Isabelle
  imports Main
begin

unbundle bit_operations_syntax

section \<open>Python strings and integers used by \<open>vm.py\<close>\<close>

text \<open>
  A Python \<open>str\<close> is modelled as a \<open>string\<close>, one \<open>char\<close> per code point, so the
  model covers source texts whose code points are below 256.  Python integers are
  unbounded and are modelled as \<open>int\<close>; \<open><<\<close>, \<open>>>\<close>, \<open>&\<close> and \<open>|\<close> are
  \<open>push_bit\<close>, \<open>drop_bit\<close>, \<open>AND\<close> and \<open>OR\<close> on \<open>int\<close>, which agree with Python
  on negative numbers as well (infinite two's complement, shifts rounding down).
\<close>

definition is_space :: "char \<Rightarrow> bool" where
  \<comment> \<open>\<open>str.isspace\<close> on one code point below 256\<close>
  "is_space c \<longleftrightarrow>
     (of_char c :: nat) \<in> set [0x09, 0x0A, 0x0B, 0x0C, 0x0D, 0x1C, 0x1D, 0x1E, 0x1F, 0x20, 0x85, 0xA0]"

definition is_linebreak :: "char \<Rightarrow> bool" where
  \<comment> \<open>the line boundaries of \<open>str.splitlines\<close> below 256\<close>
  "is_linebreak c \<longleftrightarrow>
     (of_char c :: nat) \<in> set [0x0A, 0x0B, 0x0C, 0x0D, 0x1C, 0x1D, 0x1E, 0x85]"

fun splitlines_from :: "string \<Rightarrow> string \<Rightarrow> string list" where
  \<comment> \<open>first argument: the current line, reversed\<close>
  "splitlines_from cur [] = (if cur = [] then [] else [rev cur])"
| "splitlines_from cur (c # cs) =
     (if c = CHR 0x0D then
        (case cs of
           d # ds \<Rightarrow> if d = CHR 0x0A then rev cur # splitlines_from [] ds
                     else rev cur # splitlines_from [] cs
         | [] \<Rightarrow> rev cur # splitlines_from [] cs)
      else if is_linebreak c then rev cur # splitlines_from [] cs
      else splitlines_from (c # cur) cs)"

definition splitlines :: "string \<Rightarrow> string list" where
  "splitlines s = splitlines_from [] s"

definition strip :: "string \<Rightarrow> string" where
  "strip s = rev (dropWhile is_space (rev (dropWhile is_space s)))"

fun split_from :: "string \<Rightarrow> string \<Rightarrow> string list" where
  \<comment> \<open>\<open>str.split()\<close> without arguments; first argument: the current token, reversed\<close>
  "split_from cur [] = (if cur = [] then [] else [rev cur])"
| "split_from cur (c # cs) =
     (if is_space c then
        (if cur = [] then split_from [] cs else rev cur # split_from [] cs)
      else split_from (c # cur) cs)"

definition split :: "string \<Rightarrow> string list" where
  "split s = split_from [] s"

definition startswith :: "string \<Rightarrow> string \<Rightarrow> bool" where
  "startswith s p \<longleftrightarrow> take (length p) s = p"

definition is_digit :: "char \<Rightarrow> bool" where
  "is_digit c \<longleftrightarrow> 48 \<le> (of_char c :: nat) \<and> (of_char c :: nat) \<le> 57"

definition digit_value :: "char \<Rightarrow> int" where
  "digit_value c = int (of_char c) - 48"

fun parse_digits :: "int \<Rightarrow> string \<Rightarrow> int option" where
  \<comment> \<open>decimal digits, single underscores allowed between two digits\<close>
  "parse_digits acc [] = Some acc"
| "parse_digits acc (c # cs) =
     (if is_digit c then parse_digits (acc * 10 + digit_value c) cs
      else if c = CHR ''_'' then
        (case cs of
           [] \<Rightarrow> None
         | d # _ \<Rightarrow> if is_digit d then parse_digits acc cs else None)
      else None)"

definition parse_unsigned :: "string \<Rightarrow> int option" where
  "parse_unsigned s =
     (case s of
        [] \<Rightarrow> None
      | c # _ \<Rightarrow> if is_digit c then parse_digits 0 s else None)"

text \<open>
  \<open>int(tok)\<close> in base 10 on a token that holds no whitespace: an optional sign, then
  decimal digits with single underscores between them.  The cap that recent interpreters
  put on the number of digits (4300 unless reconfigured) is not modelled; a token beyond
  it is a \<open>ValueError\<close> there as well.
\<close>

definition py_int :: "string \<Rightarrow> int option" where
  \<comment> \<open>\<open>None\<close> is the \<open>ValueError\<close>\<close>
  "py_int s =
     (case s of
        [] \<Rightarrow> None
      | c # cs \<Rightarrow>
          if c = CHR ''-'' then map_option uminus (parse_unsigned cs)
          else if c = CHR ''+'' then parse_unsigned cs
          else parse_unsigned s)"

definition hex_char :: "int \<Rightarrow> char" where
  "hex_char d = (if d < 10 then char_of (48 + d) else char_of (55 + d))"

function hex_digits :: "int \<Rightarrow> string" where
  \<comment> \<open>the upper-case hexadecimal digits of a number that is not negative\<close>
  "hex_digits n =
     (if n < 16 then [hex_char n] else hex_digits (n div 16) @ [hex_char (n mod 16)])"
  by pat_completeness auto
termination
  by (relation "measure nat") auto

definition zfill :: "nat \<Rightarrow> string \<Rightarrow> string" where
  "zfill w s = replicate (w - length s) CHR ''0'' @ s"

definition format_08X :: "int \<Rightarrow> string" where
  \<comment> \<open>the format specification \<open>08X\<close>: the sign counts in the width\<close>
  "format_08X n =
     (if n < 0 then CHR ''-'' # zfill 7 (hex_digits (- n))
      else zfill 8 (hex_digits n))"

section \<open>The assembler\<close>

text \<open>
  Every error of \<open>Assembler.assemble\<close> is a \<open>ValueError\<close>; the constructors keep
  the values its message interpolates:
  \<^item> \<open>Unknown instruction '{command}' on line {line_no}\<close>
  \<^item> \<open>{command} requires 2 arguments on line {line_no}\<close>
  \<^item> \<open>int\<close>'s own \<open>invalid literal for int() with base 10: '{token}'\<close>
  \<^item> \<open>Invalid register number: {reg}\<close> and \<open>Invalid address: {address}\<close>
  \<^item> \<open>Unhandled instruction '{command}' on line {line_no}\<close>

  \<open>PartsIndexError\<close> stands for \<open>parts[0]\<close> on an empty list; like the unhandled
  instruction it is never raised (\<open>assemble_line_Inl\<close> below).
\<close>

datatype range_field = RegisterNumber | Address

datatype asm_error =
    UnknownInstruction string nat
  | ArgumentCountError string nat
  | MalformedOperand string
  | RangeError range_field int
  | UnhandledInstruction string nat
  | PartsIndexError

record asm_log =
  line :: nat
  instruction :: string
  binary :: string

definition instructions :: "(string \<times> int) list" where
  "instructions =
     [(''LOAD_CONSTANT'', 0xA4),
      (''LOAD_MEMORY'', 0x90),
      (''STORE_TO_MEMORY'', 0x1D),
      (''SHIFT_LEFT'', 0x4A)]"

definition encode :: "int \<Rightarrow> int \<Rightarrow> int \<Rightarrow> int" where
  "encode opcode reg v = push_bit 24 opcode OR push_bit 16 reg OR v"

definition emit :: "nat \<Rightarrow> string \<Rightarrow> int \<Rightarrow> asm_error + (int \<times> asm_log) option" where
  "emit line_no ln encoded =
     Inr (Some (encoded, \<lparr>line = line_no, instruction = ln, binary = format_08X encoded\<rparr>))"

definition assemble_line :: "nat \<Rightarrow> string \<Rightarrow> asm_error + (int \<times> asm_log) option" where
  \<comment> \<open>the body of the loop; \<open>Inr None\<close> is \<open>continue\<close>\<close>
  "assemble_line line_no raw =
     (let ln = strip raw in
      if ln = [] \<or> startswith ln '';'' then Inr None
      else
        (case split ln of
           [] \<Rightarrow> Inl PartsIndexError
         | command # _ \<Rightarrow>
            (let parts = split ln in
             case map_of instructions command of
               None \<Rightarrow> Inl (UnknownInstruction command line_no)
             | Some opcode \<Rightarrow>
                 if command = ''LOAD_CONSTANT'' then
                   (case parts of
                      [_, reg, v] \<Rightarrow>
                        (case py_int reg of
                           None \<Rightarrow> Inl (MalformedOperand reg)
                         | Some reg' \<Rightarrow>
                            (case py_int v of
                               None \<Rightarrow> Inl (MalformedOperand v)
                             | Some v' \<Rightarrow> emit line_no ln (encode opcode reg' v')))
                    | _ \<Rightarrow> Inl (ArgumentCountError ''LOAD_CONSTANT'' line_no))
                 else if command = ''STORE_TO_MEMORY'' then
                   (case parts of
                      [_, reg, address] \<Rightarrow>
                        (case py_int reg of
                           None \<Rightarrow> Inl (MalformedOperand reg)
                         | Some reg' \<Rightarrow>
                            (case py_int address of
                               None \<Rightarrow> Inl (MalformedOperand address)
                             | Some address' \<Rightarrow>
                                 if \<not> (0 \<le> reg' \<and> reg' < 32) then
                                   Inl (RangeError RegisterNumber reg')
                                 else if \<not> (0 \<le> address' \<and> address' < push_bit 24 1) then
                                   Inl (RangeError Address address')
                                 else emit line_no ln (encode opcode reg' address')))
                    | _ \<Rightarrow> Inl (ArgumentCountError ''STORE_TO_MEMORY'' line_no))
                 else if command = ''LOAD_MEMORY'' then
                   (case parts of
                      [_, reg, offset] \<Rightarrow>
                        (case py_int reg of
                           None \<Rightarrow> Inl (MalformedOperand reg)
                         | Some reg' \<Rightarrow>
                            (case py_int offset of
                               None \<Rightarrow> Inl (MalformedOperand offset)
                             | Some offset' \<Rightarrow> emit line_no ln (encode opcode reg' offset')))
                    | _ \<Rightarrow> Inl (ArgumentCountError ''LOAD_MEMORY'' line_no))
                 else if command = ''SHIFT_LEFT'' then
                   (case parts of
                      [_, reg, address] \<Rightarrow>
                        (case py_int reg of
                           None \<Rightarrow> Inl (MalformedOperand reg)
                         | Some reg' \<Rightarrow>
                            (case py_int address of
                               None \<Rightarrow> Inl (MalformedOperand address)
                             | Some address' \<Rightarrow> emit line_no ln (encode opcode reg' address')))
                    | _ \<Rightarrow> Inl (ArgumentCountError ''SHIFT_LEFT'' line_no))
                 else Inl (UnhandledInstruction command line_no))))"

fun assemble_lines ::
  "nat \<Rightarrow> string list \<Rightarrow> int list \<Rightarrow> asm_log list \<Rightarrow> asm_error + (int list \<times> asm_log list)" where
  "assemble_lines line_no [] machine_code lg = Inr (machine_code, lg)"
| "assemble_lines line_no (raw # rest) machine_code lg =
     (case assemble_line line_no raw of
        Inl e \<Rightarrow> Inl e
      | Inr None \<Rightarrow> assemble_lines (Suc line_no) rest machine_code lg
      | Inr (Some (encoded, entry)) \<Rightarrow>
          assemble_lines (Suc line_no) rest (machine_code @ [encoded]) (lg @ [entry]))"

definition assemble :: "string \<Rightarrow> asm_error + (int list \<times> asm_log list)" where
  "assemble source_code = assemble_lines 1 (splitlines source_code) [] []"

section \<open>The interpreter\<close>

text \<open>
  The two kinds of \<open>RuntimeError\<close> of \<open>Interpretator.execute\<close>, with the values their
  messages interpolate:
  \<^item> \<open>{LOAD_MEMORY|STORE_TO_MEMORY} failed: Invalid address {address}.\<close>
  \<^item> \<open>Unknown opcode {opcode} at index {index}.\<close>

  \<open>IndexError\<close> is what indexing \<open>self.memory\<close> out of range raises.
\<close>

datatype vm_fault =
    InvalidAddress string int
  | UnknownOpcode int nat
  | IndexError

text \<open>
  The lines appended to \<open>self.log\<close>, again by the values interpolated:
  \<^item> \<open>[{index}] LOAD_CONSTANT: Loaded {value} into register {reg}.\<close>
  \<^item> \<open>[{index}] LOAD_MEMORY: Loaded value {value} from memory[{address}] into register {reg}.\<close>
  \<^item> \<open>[{index}] STORE_TO_MEMORY: Stored value {value} to memory[{address}].\<close>
  \<^item> \<open>[{index}] SHIFT_LEFT: Shifted value in register {reg} to {shifted_value}.\<close>
\<close>

datatype exec_log =
    LoadedConstant nat int int
  | LoadedMemory nat int int int
  | StoredToMemory nat int int
  | ShiftedLeft nat int int

record vm_state =
  stack :: "int list"
  memory :: "int list"
  log :: "exec_log list"

definition init :: vm_state where
  "init = \<lparr>stack = [], memory = replicate 256 0, log = []\<rparr>"

definition getitem :: "int list \<Rightarrow> int \<Rightarrow> int option" where
  \<comment> \<open>\<open>xs[i]\<close>: a negative index counts from the end, \<open>None\<close> is \<open>IndexError\<close>\<close>
  "getitem xs i =
     (let n = int (length xs); j = (if i < 0 then i + n else i)
      in if 0 \<le> j \<and> j < n then Some (xs ! nat j) else None)"

definition setitem :: "int list \<Rightarrow> int \<Rightarrow> int \<Rightarrow> int list option" where
  \<comment> \<open>\<open>xs[i] = v\<close>\<close>
  "setitem xs i v =
     (let n = int (length xs); j = (if i < 0 then i + n else i)
      in if 0 \<le> j \<and> j < n then Some (xs[nat j := v]) else None)"

definition opcode_of :: "int \<Rightarrow> int" where
  \<comment> \<open>\<open>(instruction >> 24) & 0xFF\<close>\<close>
  "opcode_of ins = drop_bit 24 ins AND 0xFF"

definition reg_of :: "int \<Rightarrow> int" where
  \<comment> \<open>\<open>(instruction >> 16) & 0xFF\<close>\<close>
  "reg_of ins = drop_bit 16 ins AND 0xFF"

definition operand_of :: "int \<Rightarrow> int" where
  \<comment> \<open>\<open>instruction & 0xFFFF\<close>\<close>
  "operand_of ins = ins AND 0xFFFF"

definition step :: "nat \<Rightarrow> int \<Rightarrow> vm_state \<Rightarrow> vm_state \<times> vm_fault option" where
  \<comment> \<open>the body of the loop of \<open>execute\<close>; a fault leaves the state as it is\<close>
  "step index ins s =
     (let opcode = opcode_of ins in
      if opcode = 0xA4 then
        (let reg = reg_of ins; v = operand_of ins in
         case setitem (memory s) reg v of
           None \<Rightarrow> (s, Some IndexError)
         | Some m \<Rightarrow>
             (s\<lparr>memory := m, log := log s @ [LoadedConstant index v reg]\<rparr>, None))
      else if opcode = 0x90 then
        (let reg = reg_of ins; offset = operand_of ins in
         case getitem (memory s) reg of
           None \<Rightarrow> (s, Some IndexError)
         | Some base \<Rightarrow>
            (let address = base + offset in
             if address < 0 \<or> address \<ge> int (length (memory s)) then
               (s, Some (InvalidAddress ''LOAD_MEMORY'' address))
             else
               (case getitem (memory s) address of
                  None \<Rightarrow> (s, Some IndexError)
                | Some v \<Rightarrow>
                   (case setitem (memory s) reg v of
                      None \<Rightarrow> (s, Some IndexError)
                    | Some m \<Rightarrow>
                        (s\<lparr>memory := m, log := log s @ [LoadedMemory index v address reg]\<rparr>,
                         None)))))
      else if opcode = 0x1D then
        (let reg = reg_of ins; address = operand_of ins in
         case getitem (memory s) reg of
           None \<Rightarrow> (s, Some IndexError)
         | Some v \<Rightarrow>
             if address < 0 \<or> address \<ge> int (length (memory s)) then
               (s, Some (InvalidAddress ''STORE_TO_MEMORY'' address))
             else
               (case setitem (memory s) address v of
                  None \<Rightarrow> (s, Some IndexError)
                | Some m \<Rightarrow>
                    (s\<lparr>memory := m, log := log s @ [StoredToMemory index v address]\<rparr>, None)))
      else if opcode = 0x4A then
        (let reg = reg_of ins in
         case getitem (memory s) reg of
           None \<Rightarrow> (s, Some IndexError)
         | Some v \<Rightarrow>
            (let shifted_value = push_bit 1 v AND 0xFFFFFFFF in
             case setitem (memory s) reg shifted_value of
               None \<Rightarrow> (s, Some IndexError)
             | Some m \<Rightarrow>
                 (s\<lparr>memory := m, log := log s @ [ShiftedLeft index reg shifted_value]\<rparr>, None)))
      else (s, Some (UnknownOpcode opcode index)))"

fun execute_from :: "nat \<Rightarrow> int list \<Rightarrow> vm_state \<Rightarrow> vm_state \<times> vm_fault option" where
  \<comment> \<open>the loop over \<open>enumerate(machine_code)\<close>, from position \<open>index\<close> on\<close>
  "execute_from index [] s = (s, None)"
| "execute_from index (ins # rest) s =
     (case step index ins s of
        (s', Some f) \<Rightarrow> (s', Some f)
      | (s', None) \<Rightarrow> execute_from (Suc index) rest s')"

definition execute :: "int list \<Rightarrow> vm_state \<Rightarrow> vm_state \<times> vm_fault option" where
  \<comment> \<open>the state is returned with the fault: a raise undoes nothing\<close>
  "execute machine_code s = execute_from 0 machine_code s"

definition cell_ok :: "int \<Rightarrow> bool" where
  \<comment> \<open>a cell value that fits 32 bits, unsigned\<close>
  "cell_ok v \<longleftrightarrow> 0 \<le> v \<and> v < 2 ^ 32"

definition mem_ok :: "int list \<Rightarrow> bool" where
  "mem_ok m \<longleftrightarrow> length m = 256 \<and> list_all cell_ok m"

fun error_line :: "asm_error \<Rightarrow> nat option" where
  \<comment> \<open>the line number an assembly error's message holds, if it holds one\<close>
  "error_line (UnknownInstruction command line_no) = Some line_no"
| "error_line (ArgumentCountError command line_no) = Some line_no"
| "error_line (UnhandledInstruction command line_no) = Some line_no"
| "error_line (MalformedOperand token) = None"
| "error_line (RangeError field v) = None"
| "error_line PartsIndexError = None"

section \<open>Bit masks and decoding\<close>

lemma and_FF: "(x::int) AND 0xFF = x mod 256"
proof -
  have "(0xFF::int) = mask 8" by (simp add: mask_eq_exp_minus_1)
  then have "x AND 0xFF = take_bit 8 x" by (simp only: take_bit_eq_mask)
  then show ?thesis by (simp add: take_bit_eq_mod)
qed

lemma and_FFFF: "(x::int) AND 0xFFFF = x mod 65536"
proof -
  have "(0xFFFF::int) = mask 16" by (simp add: mask_eq_exp_minus_1)
  then have "x AND 0xFFFF = take_bit 16 x" by (simp only: take_bit_eq_mask)
  then show ?thesis by (simp add: take_bit_eq_mod)
qed

lemma and_FFFFFFFF: "(x::int) AND 0xFFFFFFFF = x mod 4294967296"
proof -
  have "(0xFFFFFFFF::int) = mask 32" by (simp add: mask_eq_exp_minus_1)
  then have "x AND 0xFFFFFFFF = take_bit 32 x" by (simp only: take_bit_eq_mask)
  then show ?thesis by (simp add: take_bit_eq_mod)
qed

lemma reg_of_range: "0 \<le> reg_of ins \<and> reg_of ins < 256"
  by (simp add: reg_of_def and_FF)

lemma operand_of_range: "0 \<le> operand_of ins \<and> operand_of ins < 65536"
  by (simp add: operand_of_def and_FFFF)

lemma mask_FF: "(x::int) AND 0xFF = take_bit 8 x"
  by (simp add: and_FF take_bit_eq_mod)

lemma mask_FFFF: "(x::int) AND 0xFFFF = take_bit 16 x"
  by (simp add: and_FFFF take_bit_eq_mod)

lemma operand_of_encode: "operand_of (encode opc r v) = v mod 2 ^ 16"
proof -
  have "operand_of (encode opc r v) = take_bit 16 v"
    by (simp add: operand_of_def encode_def mask_FFFF take_bit_push_bit)
  then show ?thesis by (simp add: take_bit_eq_mod)
qed

lemma reg_of_encode:
  assumes "0 \<le> r" "r < 256" "0 \<le> v" "v < 2 ^ 16"
  shows "reg_of (encode opc r v) = r"
proof -
  have "drop_bit 16 v = 0" using assms by (simp add: drop_bit_eq_div)
  moreover have "take_bit 8 r = r" using assms by (simp add: take_bit_int_eq_self)
  ultimately show ?thesis
    by (simp add: reg_of_def encode_def mask_FF drop_bit_push_bit take_bit_push_bit)
qed

lemma opcode_of_encode:
  assumes "0 \<le> opc" "opc < 256" "0 \<le> r" "r < 256" "0 \<le> v" "v < 2 ^ 24"
  shows "opcode_of (encode opc r v) = opc"
proof -
  have "drop_bit 24 v = 0" "drop_bit 8 r = 0" using assms by (simp_all add: drop_bit_eq_div)
  moreover have "take_bit 8 opc = opc" using assms by (simp add: take_bit_int_eq_self)
  ultimately show ?thesis
    by (simp add: opcode_of_def encode_def mask_FF drop_bit_push_bit take_bit_push_bit)
qed

section \<open>Properties of one executed instruction and of the loop\<close>

lemma getitem_nonneg:
  "0 \<le> i \<Longrightarrow> getitem xs i = (if i < int (length xs) then Some (xs ! nat i) else None)"
  by (simp add: getitem_def Let_def)

lemma setitem_nonneg:
  "0 \<le> i \<Longrightarrow> setitem xs i v = (if i < int (length xs) then Some (xs[nat i := v]) else None)"
  by (simp add: setitem_def Let_def)

lemma getitem_reg [simp]:
  "getitem xs (reg_of ins) =
     (if reg_of ins < int (length xs) then Some (xs ! nat (reg_of ins)) else None)"
  using reg_of_range [of ins] by (simp add: getitem_nonneg)

lemma setitem_reg [simp]:
  "setitem xs (reg_of ins) v =
     (if reg_of ins < int (length xs) then Some (xs[nat (reg_of ins) := v]) else None)"
  using reg_of_range [of ins] by (simp add: setitem_nonneg)

lemma step_fault_state: "step index ins s = (s', Some f) \<Longrightarrow> s' = s"
  by (auto simp: step_def Let_def split: if_splits option.splits)

lemma step_ok_log: "step index ins s = (s', None) \<Longrightarrow> length (log s') = Suc (length (log s))"
  by (auto simp: step_def Let_def split: if_splits option.splits)

lemma execute_from_fault:
  "execute_from index code s = (s', Some f) \<Longrightarrow>
     \<exists>k < length code.
       execute_from index (take k code) s = (s', None) \<and>
       length (log s') = length (log s) + k \<and>
       step (index + k) (code ! k) s' = (s', Some f)"
proof (induction code arbitrary: index s)
  case Nil
  then show ?case by simp
next
  case (Cons ins rest)
  obtain s1 r1 where st: "step index ins s = (s1, r1)" by (cases "step index ins s")
  show ?case
  proof (cases r1)
    case None
    with Cons.prems st have "execute_from (Suc index) rest s1 = (s', Some f)" by simp
    from Cons.IH [OF this] obtain k where k: "k < length rest"
      "execute_from (Suc index) (take k rest) s1 = (s', None)"
      "length (log s') = length (log s1) + k"
      "step (Suc index + k) (rest ! k) s' = (s', Some f)" by blast
    have "length (log s1) = Suc (length (log s))" using st None by (simp add: step_ok_log)
    with k st None show ?thesis
      by (intro exI [of _ "Suc k"]) simp
  next
    case (Some g)
    with Cons.prems st have "s' = s1" "g = f" by simp_all
    moreover have "s1 = s" using st Some by (simp add: step_fault_state)
    ultimately show ?thesis using st Some by (intro exI [of _ 0]) simp
  qed
qed

lemma list_all_update: "list_all P xs \<Longrightarrow> P v \<Longrightarrow> list_all P (xs[i := v])"
  by (auto simp: list_all_iff dest: set_update_subset_insert [THEN subsetD])

lemma list_all_nth: "list_all P xs \<Longrightarrow> i < length xs \<Longrightarrow> P (xs ! i)"
  by (simp add: list_all_length)

lemma mem_ok_length: "mem_ok m \<Longrightarrow> length m = 256"
  by (simp add: mem_ok_def)

lemma mem_ok_update: "mem_ok m \<Longrightarrow> cell_ok v \<Longrightarrow> mem_ok (m[i := v])"
  by (simp add: mem_ok_def list_all_update)

lemma mem_ok_nth: "mem_ok m \<Longrightarrow> 0 \<le> i \<Longrightarrow> i < 256 \<Longrightarrow> cell_ok (m ! nat i)"
  by (simp add: mem_ok_def list_all_length)

lemma cell_ok_operand: "cell_ok (operand_of ins)"
  using operand_of_range [of ins] by (simp add: cell_ok_def)

lemma cell_ok_masked: "cell_ok (x AND 0xFFFFFFFF)"
  by (simp add: cell_ok_def and_FFFFFFFF)

lemma step_mem_ok: "mem_ok (memory s) \<Longrightarrow> mem_ok (memory (fst (step index ins s)))"
  using reg_of_range [of ins]
  by (auto simp: step_def Let_def getitem_nonneg setitem_nonneg mem_ok_length
      intro!: mem_ok_update mem_ok_nth cell_ok_operand cell_ok_masked split: option.splits)

lemma execute_from_mem_ok:
  "mem_ok (memory s) \<Longrightarrow> mem_ok (memory (fst (execute_from index code s)))"
proof (induction code arbitrary: index s)
  case Nil
  then show ?case by simp
next
  case (Cons ins rest)
  obtain s1 r1 where st: "step index ins s = (s1, r1)" by (cases "step index ins s")
  have "mem_ok (memory s1)" using step_mem_ok [OF Cons.prems, of index ins] st by simp
  then show ?case using st Cons.IH [of s1 "Suc index"] by (cases r1) simp_all
qed

lemma init_mem_ok: "mem_ok (memory init)"
  by (simp add: mem_ok_def init_def cell_ok_def list_all_iff)

section \<open>Tokens of a stripped line\<close>

lemma strip_hd: "strip s \<noteq> [] \<Longrightarrow> \<not> is_space (hd (strip s))"
proof -
  assume ne: "strip s \<noteq> []"
  define d where "d = dropWhile is_space s"
  have "takeWhile is_space (rev d) @ dropWhile is_space (rev d) = rev d" by simp
  then have "rev (dropWhile is_space (rev d)) @ rev (takeWhile is_space (rev d)) = d"
    by (metis rev_append rev_rev_ident)
  then have d: "strip s @ rev (takeWhile is_space (rev d)) = d"
    by (simp add: strip_def d_def)
  with ne have "hd (strip s) = hd d" "d \<noteq> []" by (metis hd_append2, auto)
  then show ?thesis unfolding d_def using hd_dropWhile [of is_space s] by simp
qed

lemma split_from_first:
  "cur \<noteq> [] \<Longrightarrow> \<exists>t ts. split_from cur s = t # ts \<and> t \<noteq> [] \<and> hd t = last cur"
proof (induction s arbitrary: cur)
  case Nil
  then show ?case by (simp add: hd_rev)
next
  case (Cons c cs)
  show ?case
  proof (cases "is_space c")
    case True
    with Cons.prems show ?thesis by (simp add: hd_rev)
  next
    case False
    have "c # cur \<noteq> []" by simp
    from Cons.IH [OF this] Cons.prems False show ?thesis by simp
  qed
qed

lemma split_first:
  assumes "ln \<noteq> []" "\<not> is_space (hd ln)"
  shows "\<exists>t ts. split ln = t # ts \<and> t \<noteq> [] \<and> hd t = hd ln"
proof -
  from assms obtain c cs where ln: "ln = c # cs" and c: "\<not> is_space c" by (cases ln) auto
  from split_from_first [of "[c]" cs] ln c show ?thesis by (simp add: split_def)
qed

lemma split_strip_first:
  "strip raw \<noteq> [] \<Longrightarrow>
     \<exists>t ts. split (strip raw) = t # ts \<and> t \<noteq> [] \<and> hd t = hd (strip raw)"
  by (rule split_first) (simp_all add: strip_hd)

lemma startswith_semicolon: "ln \<noteq> [] \<Longrightarrow> startswith ln '';'' \<longleftrightarrow> hd ln = CHR '';''"
  by (cases ln) (simp_all add: startswith_def)

lemma line_not_skipped:
  assumes "split (strip raw) = c # rest" "hd c \<noteq> CHR '';''"
  shows "strip raw \<noteq> [] \<and> \<not> startswith (strip raw) '';''"
proof -
  have ne: "strip raw \<noteq> []" using assms(1) by (auto simp: split_def)
  from split_strip_first [OF ne] assms have "hd (strip raw) \<noteq> CHR '';''" by auto
  with ne show ?thesis by (simp add: startswith_semicolon)
qed

section \<open>Properties of one assembled line and of the loop\<close>

lemma map_of_instructions:
  "map_of instructions m = Some opc \<longleftrightarrow>
     m = ''LOAD_CONSTANT'' \<and> opc = 0xA4 \<or> m = ''LOAD_MEMORY'' \<and> opc = 0x90 \<or>
     m = ''STORE_TO_MEMORY'' \<and> opc = 0x1D \<or> m = ''SHIFT_LEFT'' \<and> opc = 0x4A"
  by (auto simp: instructions_def)

lemma instructions_opcode_range: "map_of instructions m = Some opc \<Longrightarrow> 0 \<le> opc \<and> opc < 256"
  by (auto simp: map_of_instructions)

lemma assemble_line_plain:
  assumes "m \<in> {''LOAD_CONSTANT'', ''LOAD_MEMORY'', ''SHIFT_LEFT''}"
    and "split (strip raw) = [m, a, b]" and "py_int a = Some r" and "py_int b = Some v"
    and "map_of instructions m = Some opc"
  shows "assemble_line n raw = emit n (strip raw) (encode opc r v)"
proof -
  have "hd m \<noteq> CHR '';''" using assms(1) by auto
  from line_not_skipped [OF assms(2) this] assms show ?thesis
    by (auto simp: assemble_line_def Let_def)
qed

lemma assemble_line_store:
  assumes "split (strip raw) = [''STORE_TO_MEMORY'', a, b]"
    and "py_int a = Some r" and "py_int b = Some v"
  shows "assemble_line n raw =
     (if \<not> (0 \<le> r \<and> r < 32) then Inl (RangeError RegisterNumber r)
      else if \<not> (0 \<le> v \<and> v < 2 ^ 24) then Inl (RangeError Address v)
      else emit n (strip raw) (encode 0x1D r v))"
proof -
  have "hd ''STORE_TO_MEMORY'' \<noteq> CHR '';''" by simp
  from line_not_skipped [OF assms(1) this] assms show ?thesis
    by (simp add: assemble_line_def Let_def instructions_def)
qed

lemma assemble_line_Inl:
  assumes "assemble_line n raw = Inl e"
  shows "(\<exists>c. e = UnknownInstruction c n) \<or> (\<exists>c. e = ArgumentCountError c n) \<or>
         (\<exists>t. e = MalformedOperand t \<and> t \<in> set (split (strip raw)) \<and> py_int t = None) \<or>
         (\<exists>f v. e = RangeError f v)"
proof -
  have ne: "strip raw \<noteq> []" using assms by (auto simp: assemble_line_def Let_def split: if_splits)
  from split_strip_first [OF ne] obtain c rest where sp: "split (strip raw) = c # rest" by blast
  show ?thesis
  proof (cases "map_of instructions c")
    case None
    with assms sp show ?thesis by (auto simp: assemble_line_def Let_def split: if_splits)
  next
    case (Some opc)
    then have c: "c = ''LOAD_CONSTANT'' \<or> c = ''LOAD_MEMORY'' \<or> c = ''STORE_TO_MEMORY'' \<or> c = ''SHIFT_LEFT''"
      by (auto simp: map_of_instructions)
    with assms sp Some show ?thesis
      by (auto simp: assemble_line_def Let_def emit_def split: if_splits list.splits option.splits)
  qed
qed

lemma assemble_lines_Inl:
  "assemble_lines k ls mc lg = Inl e \<Longrightarrow>
     \<exists>i < length ls. assemble_line (k + i) (ls ! i) = Inl e \<and>
       \<not> isl (assemble_lines k (take i ls) mc lg)"
proof (induction ls arbitrary: k mc lg)
  case Nil
  then show ?case by simp
next
  case (Cons raw rest)
  show ?case
  proof (cases "assemble_line k raw")
    case (Inl e')
    with Cons.prems have "e' = e" by simp
    with Inl show ?thesis by (intro exI [of _ 0]) simp
  next
    case (Inr r)
    obtain mc' lg' where step:
      "\<And>xs. assemble_lines k (raw # xs) mc lg = assemble_lines (Suc k) xs mc' lg'"
      using Inr by (cases r) (auto split: prod.splits)
    from Cons.prems have "assemble_lines (Suc k) rest mc' lg' = Inl e" by (simp only: step)
    from Cons.IH [OF this] obtain i where i: "i < length rest"
      "assemble_line (Suc k + i) (rest ! i) = Inl e"
      "\<not> isl (assemble_lines (Suc k) (take i rest) mc' lg')" by blast
    then show ?thesis
      by (intro exI [of _ "Suc i"]) (simp add: step del: assemble_lines.simps)
  qed
qed

section \<open>The worked example\<close>

text \<open>
  C6: the three-line source \<open>LOAD_CONSTANT 0 5\<close>, \<open>SHIFT_LEFT 0 0\<close>,
  \<open>STORE_TO_MEMORY 0 10\<close> assembles to exactly the words \<open>0xA4000005\<close>,
  \<open>0x4A000000\<close>, \<open>0x1D00000A\<close> (with one trace record per line), and running these
  words from the all-zero memory ends without a fault with cell 0 = 10, cell 10 = 10 and
  every other one of the 256 cells = 0.
\<close>

theorem example_end_to_end:
  "assemble ''LOAD_CONSTANT 0 5\<newline>SHIFT_LEFT 0 0\<newline>STORE_TO_MEMORY 0 10'' =
     Inr ([0xA4000005, 0x4A000000, 0x1D00000A],
          [\<lparr>line = 1, instruction = ''LOAD_CONSTANT 0 5'', binary = ''A4000005''\<rparr>,
           \<lparr>line = 2, instruction = ''SHIFT_LEFT 0 0'', binary = ''4A000000''\<rparr>,
           \<lparr>line = 3, instruction = ''STORE_TO_MEMORY 0 10'', binary = ''1D00000A''\<rparr>])
   \<and> execute [0xA4000005, 0x4A000000, 0x1D00000A] init =
     (\<lparr>stack = [],
       memory = (replicate 256 0)[0 := 10, 10 := 10],
       log = [LoadedConstant 0 5 0, ShiftedLeft 1 0 10, StoredToMemory 2 10 10]\<rparr>,
      None)"
  by code_simp

section \<open>Encoding, range checks and diagnostics of the assembler\<close>

text \<open>
  In the theorems about one line, \<open>split (strip raw) = [m, a, b]\<close> says that the line
  has the mnemonic \<open>m\<close> and two operand tokens, and \<open>py_int a = Some r\<close> that the token
  \<open>a\<close> parses to the integer \<open>r\<close>.
\<close>

text \<open>
  C1, as amended: for every line whose mnemonic is \<open>LOAD_CONSTANT\<close>, \<open>LOAD_MEMORY\<close> or
  \<open>SHIFT_LEFT\<close> and that has two operands that parse, the encoded word is
  \<open>(opcode << 24) | (register << 16) | operand\<close> with the operand as written, not
  truncated.  The low 16 bits of the word are the operand modulo \<open>2^16\<close>, and the word
  is the one with the truncated operand whenever \<open>0 \<le> operand < 2^16\<close>.
\<close>

theorem encoded_word_layout:
  assumes "m \<in> {''LOAD_CONSTANT'', ''LOAD_MEMORY'', ''SHIFT_LEFT''}"
    and "split (strip raw) = [m, a, b]"
    and "py_int a = Some r" and "py_int b = Some v"
    and "map_of instructions m = Some opc"
  shows "assemble_line n raw =
           Inr (Some (push_bit 24 opc OR push_bit 16 r OR v,
                      \<lparr>line = n, instruction = strip raw,
                        binary = format_08X (push_bit 24 opc OR push_bit 16 r OR v)\<rparr>))
         \<and> (push_bit 24 opc OR push_bit 16 r OR v) AND 0xFFFF = v mod 2 ^ 16
         \<and> (0 \<le> v \<and> v < 2 ^ 16 \<longrightarrow>
              push_bit 24 opc OR push_bit 16 r OR v =
              push_bit 24 opc OR push_bit 16 r OR (v mod 2 ^ 16))"
  using assemble_line_plain [OF assms, of n] operand_of_encode [of opc r v]
  by (simp add: emit_def encode_def operand_of_def)

theorem encoded_word_layout_witness:
  "''LOAD_CONSTANT'' \<in> {''LOAD_CONSTANT'', ''LOAD_MEMORY'', ''SHIFT_LEFT''}
   \<and> split (strip ''  LOAD_CONSTANT 3   513 '') = [''LOAD_CONSTANT'', ''3'', ''513'']
   \<and> py_int ''3'' = Some 3 \<and> py_int ''513'' = Some 513
   \<and> map_of instructions ''LOAD_CONSTANT'' = Some 0xA4
   \<and> 0 \<le> (513::int) \<and> (513::int) < 2 ^ 16
   \<and> assemble_line 7 ''  LOAD_CONSTANT 3   513 '' =
        Inr (Some (0xA4030201,
                   \<lparr>line = 7, instruction = ''LOAD_CONSTANT 3   513'', binary = ''A4030201''\<rparr>))"
proof -
  have a: "''LOAD_CONSTANT'' \<in> {''LOAD_CONSTANT'', ''LOAD_MEMORY'', ''SHIFT_LEFT''}" by simp
  have b: "split (strip ''  LOAD_CONSTANT 3   513 '') = [''LOAD_CONSTANT'', ''3'', ''513'']"
    by code_simp
  have c: "py_int ''3'' = Some 3" by code_simp
  have d: "py_int ''513'' = Some 513" by code_simp
  have e: "map_of instructions ''LOAD_CONSTANT'' = Some 0xA4" by code_simp
  have f: "assemble_line 7 ''  LOAD_CONSTANT 3   513 '' =
        Inr (Some (0xA4030201,
                   \<lparr>line = 7, instruction = ''LOAD_CONSTANT 3   513'', binary = ''A4030201''\<rparr>))"
    by code_simp
  from encoded_word_layout [OF a b c d e, of 7] a b c d e f show ?thesis by simp
qed

text \<open>
  C1 as stated fails: \<open>LOAD_CONSTANT 0 65536\<close> assembles to \<open>0xA4010000\<close>, which is not
  \<open>(0xA4 << 24) | (0 << 16) | (65536 mod 2^16)\<close>; bit 16 of the operand has changed the
  register field from 0 to 1.
\<close>

theorem encoded_word_layout_counterexample:
  "assemble_line 1 ''LOAD_CONSTANT 0 65536'' =
     Inr (Some (0xA4010000,
                \<lparr>line = 1, instruction = ''LOAD_CONSTANT 0 65536'', binary = ''A4010000''\<rparr>))
   \<and> (0xA4010000 :: int) \<noteq> push_bit 24 0xA4 OR push_bit 16 0 OR (65536 mod 2 ^ 16)
   \<and> reg_of 0xA4010000 \<noteq> 0"
  by code_simp

text \<open>
  C2, as amended: for every line that assembles to a word, the decoded operand (bits
  15-0) is the written operand modulo \<open>2^16\<close>, for all four mnemonics; the decoded opcode
  of a \<open>STORE_TO_MEMORY\<close> line is the opcode of the mnemonic; and when
  \<open>0 \<le> register < 256\<close> and \<open>0 \<le> operand < 2^16\<close>, decoding reproduces the opcode of
  the mnemonic, the written register index and the written operand.
\<close>

theorem decode_round_trip:
  assumes "assemble_line n raw = Inr (Some (w, entry))"
    and "split (strip raw) = [m, a, b]"
    and "py_int a = Some r" and "py_int b = Some v"
    and "map_of instructions m = Some opc"
  shows "operand_of w = v mod 2 ^ 16
         \<and> (m = ''STORE_TO_MEMORY'' \<longrightarrow> opcode_of w = opc)
         \<and> (0 \<le> r \<and> r < 256 \<and> 0 \<le> v \<and> v < 2 ^ 16 \<longrightarrow>
              opcode_of w = opc \<and> reg_of w = r \<and> operand_of w = v)"
proof -
  have opc: "0 \<le> opc" "opc < 256" using instructions_opcode_range [OF assms(5)] by simp_all
  have w: "w = encode opc r v \<and> (m = ''STORE_TO_MEMORY'' \<longrightarrow> 0 \<le> r \<and> r < 32 \<and> 0 \<le> v \<and> v < 2 ^ 24)"
  proof (cases "m = ''STORE_TO_MEMORY''")
    case True
    with assms(5) have "opc = 0x1D" by (simp add: map_of_instructions)
    with True assms(1) assemble_line_store [OF assms(2) [unfolded True] assms(3,4), of n]
    show ?thesis by (auto simp: emit_def split: if_splits)
  next
    case False
    with assms(5) have "m \<in> {''LOAD_CONSTANT'', ''LOAD_MEMORY'', ''SHIFT_LEFT''}"
      by (auto simp: map_of_instructions)
    from assemble_line_plain [OF this assms(2-5), of n] assms(1) False show ?thesis
      by (simp add: emit_def)
  qed
  have 1: "operand_of w = v mod 2 ^ 16" using w by (simp add: operand_of_encode)
  have 2: "m = ''STORE_TO_MEMORY'' \<longrightarrow> opcode_of w = opc"
    using w opc by (auto intro!: opcode_of_encode)
  have 3: "0 \<le> r \<and> r < 256 \<and> 0 \<le> v \<and> v < 2 ^ 16 \<longrightarrow>
              opcode_of w = opc \<and> reg_of w = r \<and> operand_of w = v"
    using w opc 1 by (auto intro!: opcode_of_encode reg_of_encode)
  from 1 2 3 show ?thesis by blast
qed

theorem decode_round_trip_witness:
  "assemble_line 3 ''STORE_TO_MEMORY 7 200'' =
     Inr (Some (0x1D0700C8,
                \<lparr>line = 3, instruction = ''STORE_TO_MEMORY 7 200'', binary = ''1D0700C8''\<rparr>))
   \<and> split (strip ''STORE_TO_MEMORY 7 200'') = [''STORE_TO_MEMORY'', ''7'', ''200'']
   \<and> py_int ''7'' = Some 7 \<and> py_int ''200'' = Some 200
   \<and> map_of instructions ''STORE_TO_MEMORY'' = Some 0x1D
   \<and> (0 :: int) \<le> 7 \<and> (7 :: int) < 256 \<and> (0 :: int) \<le> 200 \<and> (200 :: int) < 2 ^ 16
   \<and> opcode_of 0x1D0700C8 = 0x1D \<and> reg_of 0x1D0700C8 = 7 \<and> operand_of 0x1D0700C8 = 200"
proof -
  have a: "assemble_line 3 ''STORE_TO_MEMORY 7 200'' =
     Inr (Some (0x1D0700C8,
                \<lparr>line = 3, instruction = ''STORE_TO_MEMORY 7 200'', binary = ''1D0700C8''\<rparr>))"
    by code_simp
  have b: "split (strip ''STORE_TO_MEMORY 7 200'') = [''STORE_TO_MEMORY'', ''7'', ''200'']"
    by code_simp
  have c: "py_int ''7'' = Some 7" by code_simp
  have d: "py_int ''200'' = Some 200" by code_simp
  have e: "map_of instructions ''STORE_TO_MEMORY'' = Some 0x1D" by code_simp
  from decode_round_trip [OF a b c d e] a b c d e show ?thesis by simp
qed

text \<open>
  C2 as stated fails twice: \<open>LOAD_MEMORY 0 65536\<close> decodes to register 1, not 0, and
  \<open>STORE_TO_MEMORY 0 65536\<close> passes the range check and decodes to operand 0 and
  register 1.
\<close>

theorem decode_round_trip_counterexample:
  "assemble_line 1 ''LOAD_MEMORY 0 65536'' =
     Inr (Some (0x90010000,
                \<lparr>line = 1, instruction = ''LOAD_MEMORY 0 65536'', binary = ''90010000''\<rparr>))
   \<and> reg_of 0x90010000 \<noteq> 0
   \<and> assemble_line 1 ''STORE_TO_MEMORY 0 65536'' =
     Inr (Some (0x1D010000,
                \<lparr>line = 1, instruction = ''STORE_TO_MEMORY 0 65536'', binary = ''1D010000''\<rparr>))
   \<and> operand_of 0x1D010000 \<noteq> 65536
   \<and> reg_of 0x1D010000 \<noteq> 0"
  by code_simp

text \<open>
  C4: a \<open>STORE_TO_MEMORY\<close> line whose register is outside \<open>[0, 32)\<close> or whose address
  is outside \<open>[0, 2^24)\<close> fails with a \<open>RangeError\<close> that holds the offending value (the
  register when it is out of range, the address otherwise), while a \<open>LOAD_CONSTANT\<close>,
  \<open>LOAD_MEMORY\<close> or \<open>SHIFT_LEFT\<close> line with the same two values assembles to a word.
\<close>

theorem store_range_check_only:
  assumes "split (strip raw) = [''STORE_TO_MEMORY'', a, b]"
    and "py_int a = Some r" and "py_int b = Some v"
    and "r < 0 \<or> 32 \<le> r \<or> v < 0 \<or> 2 ^ 24 \<le> v"
    and "m \<in> {''LOAD_CONSTANT'', ''LOAD_MEMORY'', ''SHIFT_LEFT''}"
    and "split (strip raw') = [m, a', b']"
    and "py_int a' = Some r" and "py_int b' = Some v"
    and "map_of instructions m = Some opc"
  shows "assemble_line n raw =
           Inl (if 0 \<le> r \<and> r < 32 then RangeError Address v else RangeError RegisterNumber r)
         \<and> assemble_line n' raw' =
           Inr (Some (encode opc r v,
                      \<lparr>line = n', instruction = strip raw',
                        binary = format_08X (encode opc r v)\<rparr>))"
  using assemble_line_store [OF assms(1-3), of n] assms(4)
    assemble_line_plain [OF assms(5-9), of n']
  by (auto simp: emit_def)

theorem store_range_check_only_witness:
  "split (strip ''STORE_TO_MEMORY 40 16777216'') = [''STORE_TO_MEMORY'', ''40'', ''16777216'']
   \<and> py_int ''40'' = Some 40 \<and> py_int ''16777216'' = Some 16777216
   \<and> (32 :: int) \<le> 40
   \<and> ''LOAD_MEMORY'' \<in> {''LOAD_CONSTANT'', ''LOAD_MEMORY'', ''SHIFT_LEFT''}
   \<and> split (strip ''LOAD_MEMORY 40 16777216'') = [''LOAD_MEMORY'', ''40'', ''16777216'']
   \<and> map_of instructions ''LOAD_MEMORY'' = Some 0x90
   \<and> assemble_line 1 ''STORE_TO_MEMORY 40 16777216'' = Inl (RangeError RegisterNumber 40)
   \<and> assemble_line 1 ''LOAD_MEMORY 40 16777216'' =
       Inr (Some (0x91280000,
                  \<lparr>line = 1, instruction = ''LOAD_MEMORY 40 16777216'', binary = ''91280000''\<rparr>))"
proof -
  have a: "split (strip ''STORE_TO_MEMORY 40 16777216'') = [''STORE_TO_MEMORY'', ''40'', ''16777216'']"
    by code_simp
  have b: "py_int ''40'' = Some 40" by code_simp
  have c: "py_int ''16777216'' = Some 16777216" by code_simp
  have d: "(40 :: int) < 0 \<or> (32 :: int) \<le> 40 \<or> (16777216 :: int) < 0 \<or> (2 :: int) ^ 24 \<le> 16777216"
    by simp
  have e: "''LOAD_MEMORY'' \<in> {''LOAD_CONSTANT'', ''LOAD_MEMORY'', ''SHIFT_LEFT''}" by simp
  have f: "split (strip ''LOAD_MEMORY 40 16777216'') = [''LOAD_MEMORY'', ''40'', ''16777216'']"
    by code_simp
  have g: "map_of instructions ''LOAD_MEMORY'' = Some 0x90" by code_simp
  have h: "encode 0x90 40 16777216 = 0x91280000" by code_simp
  have i: "format_08X 0x91280000 = ''91280000''" by code_simp
  have j: "strip ''LOAD_MEMORY 40 16777216'' = ''LOAD_MEMORY 40 16777216''" by code_simp
  from store_range_check_only [OF a b c d e f b c g, of 1 1] a b c e f g h i j
  show ?thesis by simp
qed

text \<open>
  C7, as amended: when \<open>assemble\<close> fails, it fails at one line \<open>n\<close> (counted from 1) of
  the source, every line before it having been assembled or skipped, with the error of
  that line.  An \<open>UnknownInstruction\<close> or \<open>ArgumentCountError\<close> error holds that line
  number \<open>n\<close>.  A \<open>MalformedOperand\<close> error holds the offending token of the line and
  no line number.  The only other error is a \<open>RangeError\<close>.
\<close>

theorem assembly_error_line:
  assumes "assemble source_code = Inl e"
  shows "\<exists>n. 1 \<le> n \<and> n \<le> length (splitlines source_code)
           \<and> \<not> isl (assemble_lines 1 (take (n - 1) (splitlines source_code)) [] [])
           \<and> assemble_line n (splitlines source_code ! (n - 1)) = Inl e
           \<and> ((\<exists>c. e = UnknownInstruction c n) \<or> (\<exists>c. e = ArgumentCountError c n) \<or>
              (\<exists>t. e = MalformedOperand t \<and> error_line e = None
                   \<and> t \<in> set (split (strip (splitlines source_code ! (n - 1))))) \<or>
              (\<exists>f v. e = RangeError f v))"
proof -
  from assms have "assemble_lines 1 (splitlines source_code) [] [] = Inl e"
    by (simp add: assemble_def)
  from assemble_lines_Inl [OF this] obtain i where i: "i < length (splitlines source_code)"
    "assemble_line (1 + i) (splitlines source_code ! i) = Inl e"
    "\<not> isl (assemble_lines 1 (take i (splitlines source_code)) [] [])" by blast
  from assemble_line_Inl [OF i(2)]
  have "(\<exists>c. e = UnknownInstruction c (1 + i)) \<or> (\<exists>c. e = ArgumentCountError c (1 + i)) \<or>
        (\<exists>t. e = MalformedOperand t \<and> error_line e = None
            \<and> t \<in> set (split (strip (splitlines source_code ! i)))) \<or>
        (\<exists>f v. e = RangeError f v)" by auto
  with i show ?thesis by (intro exI [of _ "1 + i"]) simp
qed

theorem assembly_error_line_witness:
  "assemble ''LOAD_CONSTANT 0 5\<newline>FOO 1 2'' = Inl (UnknownInstruction ''FOO'' 2)
   \<and> (\<exists>n. 1 \<le> n \<and> n \<le> length (splitlines ''LOAD_CONSTANT 0 5\<newline>FOO 1 2'')
        \<and> assemble_line n (splitlines ''LOAD_CONSTANT 0 5\<newline>FOO 1 2'' ! (n - 1)) =
            Inl (UnknownInstruction ''FOO'' 2)
        \<and> error_line (UnknownInstruction ''FOO'' 2) = Some n)"
proof -
  have h: "assemble ''LOAD_CONSTANT 0 5\<newline>FOO 1 2'' = Inl (UnknownInstruction ''FOO'' 2)"
    by code_simp
  from assembly_error_line [OF h] h show ?thesis by auto
qed

text \<open>
  C7 as stated fails: the line \<open>LOAD_CONSTANT x 1\<close> gives the same error, holding the
  token \<open>x\<close> and no line number, as line 1 and as line 2 of a source.
\<close>

theorem assembly_error_line_counterexample:
  "assemble ''LOAD_CONSTANT x 1'' = Inl (MalformedOperand ''x'')
   \<and> assemble ''\<newline>LOAD_CONSTANT x 1'' = Inl (MalformedOperand ''x'')
   \<and> error_line (MalformedOperand ''x'') = None"
  by code_simp

section \<open>Faults, frames and bounds of the interpreter\<close>

text \<open>
  C3: when execution of an instruction sequence faults (whatever the fault: an invalid
  address of \<open>LOAD_MEMORY\<close> or \<open>STORE_TO_MEMORY\<close>, or an unknown opcode), it stops at
  one position \<open>k\<close> of the sequence: the state returned with the fault is exactly the
  state that executing the first \<open>k\<close> instructions alone produces without a fault (so the
  faulting instruction changes no cell and no later instruction runs), the instruction at
  \<open>k\<close> faults in that state and leaves it as it is, and the execution trace has grown by
  exactly \<open>k\<close> entries, one per completed instruction and none for the faulting one.
\<close>

theorem execute_halts_at_fault:
  "execute code s = (s', Some f) \<Longrightarrow>
     \<exists>k < length code.
       execute (take k code) s = (s', None) \<and>
       length (log s') = length (log s) + k \<and>
       step k (code ! k) s' = (s', Some f)"
  using execute_from_fault [of 0 code s s' f] by (simp add: execute_def)

theorem execute_halts_at_fault_witness:
  "execute [0xA4000005, 0x9000012C, 0x4A000000] init =
     (\<lparr>stack = [], memory = (replicate 256 0)[0 := 5], log = [LoadedConstant 0 5 0]\<rparr>,
      Some (InvalidAddress ''LOAD_MEMORY'' 305))
   \<and> (\<exists>k < length [0xA4000005, 0x9000012C, 0x4A000000 :: int].
       execute (take k [0xA4000005, 0x9000012C, 0x4A000000]) init =
         (\<lparr>stack = [], memory = (replicate 256 0)[0 := 5], log = [LoadedConstant 0 5 0]\<rparr>, None) \<and>
       length (log \<lparr>stack = [], memory = (replicate 256 0)[0 := 5], log = [LoadedConstant 0 5 0]\<rparr>)
         = length (log init) + k \<and>
       step k ([0xA4000005, 0x9000012C, 0x4A000000] ! k)
           \<lparr>stack = [], memory = (replicate 256 0)[0 := 5], log = [LoadedConstant 0 5 0]\<rparr> =
         (\<lparr>stack = [], memory = (replicate 256 0)[0 := 5], log = [LoadedConstant 0 5 0]\<rparr>,
          Some (InvalidAddress ''LOAD_MEMORY'' 305)))"
proof -
  have h: "execute [0xA4000005, 0x9000012C, 0x4A000000] init =
     (\<lparr>stack = [], memory = (replicate 256 0)[0 := 5], log = [LoadedConstant 0 5 0]\<rparr>,
      Some (InvalidAddress ''LOAD_MEMORY'' 305))"
    by code_simp
  from execute_halts_at_fault [OF h] h show ?thesis by blast
qed

text \<open>
  C5: on a 256-cell memory, an instruction with opcode \<open>0x4A\<close> (\<open>SHIFT_LEFT\<close>) and
  register field \<open>r\<close> never faults and replaces cell \<open>r\<close> by \<open>(cell[r] << 1) mod 2^32\<close>;
  when cell \<open>r\<close> holds \<open>0x80000000\<close> the new value is 0.
\<close>

theorem shift_left_wraps:
  "opcode_of ins = 0x4A \<Longrightarrow> length (memory s) = 256 \<Longrightarrow>
   step index ins s =
     (s\<lparr>memory := (memory s)[nat (reg_of ins) := push_bit 1 (memory s ! nat (reg_of ins)) mod 2 ^ 32],
        log := log s @
          [ShiftedLeft index (reg_of ins) (push_bit 1 (memory s ! nat (reg_of ins)) mod 2 ^ 32)]\<rparr>,
      None)
   \<and> (memory s ! nat (reg_of ins) = 0x80000000 \<longrightarrow>
        memory (fst (step index ins s)) ! nat (reg_of ins) = 0)"
proof -
  assume op: "opcode_of ins = 0x4A" and len: "length (memory s) = 256"
  have r: "0 \<le> reg_of ins" "reg_of ins < 256" "nat (reg_of ins) < 256"
    using reg_of_range [of ins] by auto
  have st: "step index ins s =
     (s\<lparr>memory := (memory s)[nat (reg_of ins) := push_bit 1 (memory s ! nat (reg_of ins)) mod 2 ^ 32],
        log := log s @
          [ShiftedLeft index (reg_of ins) (push_bit 1 (memory s ! nat (reg_of ins)) mod 2 ^ 32)]\<rparr>,
      None)"
    using op len r by (simp add: step_def Let_def and_FFFFFFFF)
  show ?thesis
    unfolding st using len r by (simp add: push_bit_eq_mult)
qed

theorem shift_left_wraps_witness:
  "opcode_of 0x4A030000 = 0x4A
   \<and> length (memory \<lparr>stack = [], memory = (replicate 256 0)[3 := 0x80000000], log = []\<rparr>) = 256
   \<and> memory \<lparr>stack = [], memory = (replicate 256 0)[3 := 0x80000000], log = []\<rparr>
        ! nat (reg_of 0x4A030000) = 0x80000000
   \<and> step 0 0x4A030000 \<lparr>stack = [], memory = (replicate 256 0)[3 := 0x80000000], log = []\<rparr> =
       (\<lparr>stack = [], memory = replicate 256 0, log = [ShiftedLeft 0 3 0]\<rparr>, None)"
proof -
  have a: "opcode_of 0x4A030000 = 0x4A" by code_simp
  have b: "length (memory \<lparr>stack = [], memory = (replicate 256 0)[3 := 0x80000000], log = []\<rparr>) = 256"
    by simp
  have c: "memory \<lparr>stack = [], memory = (replicate 256 0)[3 := 0x80000000], log = []\<rparr>
        ! nat (reg_of 0x4A030000) = 0x80000000" by code_simp
  have d: "step 0 0x4A030000 \<lparr>stack = [], memory = (replicate 256 0)[3 := 0x80000000], log = []\<rparr> =
       (\<lparr>stack = [], memory = replicate 256 0, log = [ShiftedLeft 0 3 0]\<rparr>, None)"
    by code_simp
  from shift_left_wraps [OF a b, of 0] a b c d show ?thesis by simp
qed

text \<open>
  C9: an instruction that executes without a fault has one of the four opcodes, keeps the
  number of cells, and its new memory is the old one with one cell overwritten: the cell
  indexed by the operand field for \<open>STORE_TO_MEMORY\<close> (\<open>0x1D\<close>), the cell indexed by the
  register field for \<open>LOAD_CONSTANT\<close>, \<open>LOAD_MEMORY\<close> and \<open>SHIFT_LEFT\<close>.  Every other
  cell is unchanged.
\<close>

theorem step_writes_one_cell:
  "step index ins s = (s', None) \<Longrightarrow>
     opcode_of ins \<in> {0xA4, 0x90, 0x1D, 0x4A} \<and>
     length (memory s') = length (memory s) \<and>
     (\<exists>v. memory s' =
        (memory s)[nat (if opcode_of ins = 0x1D then operand_of ins else reg_of ins) := v])"
  using operand_of_range [of ins]
  by (auto simp: step_def Let_def getitem_nonneg setitem_nonneg split: if_splits option.splits)

theorem step_writes_one_cell_witness:
  "step 2 0x1D00000A \<lparr>stack = [], memory = (replicate 256 0)[0 := 10], log = []\<rparr> =
     (\<lparr>stack = [], memory = (replicate 256 0)[0 := 10, 10 := 10], log = [StoredToMemory 2 10 10]\<rparr>, None)
   \<and> opcode_of 0x1D00000A = 0x1D \<and> operand_of 0x1D00000A = 10
   \<and> length (memory \<lparr>stack = [], memory = (replicate 256 0)[0 := 10, 10 := 10], log = [StoredToMemory 2 10 10]\<rparr>)
       = length (memory \<lparr>stack = [], memory = (replicate 256 0)[0 := 10], log = []\<rparr>)"
proof -
  have h: "step 2 0x1D00000A \<lparr>stack = [], memory = (replicate 256 0)[0 := 10], log = []\<rparr> =
     (\<lparr>stack = [], memory = (replicate 256 0)[0 := 10, 10 := 10], log = [StoredToMemory 2 10 10]\<rparr>, None)"
    by code_simp
  have a: "opcode_of 0x1D00000A = 0x1D \<and> operand_of 0x1D00000A = 10" by code_simp
  from step_writes_one_cell [OF h] h a show ?thesis by simp
qed

text \<open>
  C10: starting from the all-zero 256-cell memory, after executing any prefix of any
  sequence of integers taken as instructions (whether it ends normally or in a fault),
  the memory still has 256 cells and each holds a value \<open>v\<close> with \<open>0 \<le> v < 2^32\<close>.
\<close>

theorem cells_stay_32_bit:
  "mem_ok (memory (fst (execute (take k code) init)))"
  unfolding execute_def by (rule execute_from_mem_ok [OF init_mem_ok])

text \<open>
  C8: what the code does where the claim expects an \<open>InvalidAddress\<close> error with the
  computed address and the index of the faulting instruction.  The error holds the address
  only: \<open>LOAD_MEMORY 0 300\<close> faults with the same error as first and as second
  instruction of a program, and so does \<open>STORE_TO_MEMORY 0 256\<close>.
\<close>

theorem invalid_address_without_index:
  "execute [0x9000012C] init = (init, Some (InvalidAddress ''LOAD_MEMORY'' 300))
   \<and> execute [0xA4000000, 0x9000012C] init =
       (init\<lparr>log := [LoadedConstant 0 0 0]\<rparr>, Some (InvalidAddress ''LOAD_MEMORY'' 300))
   \<and> execute [0x1D000100] init = (init, Some (InvalidAddress ''STORE_TO_MEMORY'' 256))
   \<and> execute [0xA4000000, 0x1D000100] init =
       (init\<lparr>log := [LoadedConstant 0 0 0]\<rparr>, Some (InvalidAddress ''STORE_TO_MEMORY'' 256))"
  by code_simp

end
